theory Spec2Isabelle
  imports Complex_Main
begin

section \<open>Data model\<close>

text \<open>
  The notebook \<^verbatim>\<open>10_joint.ipynb\<close> works on pandas \<^verbatim>\<open>Series\<close> and
  \<^verbatim>\<open>DataFrame\<close> values holding 64-bit floats. Finite floats are idealised by exact
  rationals, so rounding is not modelled. What pandas does on a division by zero is
  modelled: it raises nothing and stores \<^verbatim>\<open>nan\<close> or \<^verbatim>\<open>inf\<close> in the result.
  The tables that the functions receive hold finite numbers only.
\<close>

datatype pyfloat = Fin rat | PInf | NInf | NaN

text \<open>True division of two finite floats as numpy performs it elementwise.\<close>

definition fdiv :: "rat \<Rightarrow> rat \<Rightarrow> pyfloat" where
  "fdiv x y =
     (if y \<noteq> 0 then Fin (x / y)
      else if x = 0 then NaN
      else if 0 < x then PInf
      else NInf)"

text \<open>The Python exceptions that the modelled code can raise.\<close>

datatype error = UnboundLocalError | KeyError | ValueError

text \<open>
  A \<^verbatim>\<open>Series\<close> is its index labels paired with its values, in order. A
  \<^verbatim>\<open>DataFrame\<close> has a named row index, named column labels and its cells by rows.
\<close>

type_synonym ('l, 'v) series = "('l \<times> 'v) list"

record ('l, 'v) frame =
  index_name :: string
  index :: "'l list"
  columns_name :: string
  columns :: "'l list"
  cells :: "'v list list"

text \<open>
  The shape invariant of a \<^verbatim>\<open>DataFrame\<close> (one row of cells per index label, one cell
  per column label in each row), with the labels of each axis unique as in a joint PMF.
  On such a frame every position of a label is in range of the cells, so the reads
  \<open>cells t ! i\<close> and \<open>r ! k\<close> of the operations below never leave the table; the
  statements about selections and sums are made for such frames.
\<close>

definition wf_frame :: "('l, 'v) frame \<Rightarrow> bool" where
  "wf_frame t \<longleftrightarrow>
     distinct (index t) \<and> distinct (columns t) \<and>
     length (cells t) = length (index t) \<and>
     list_all (\<lambda>r. length r = length (columns t)) (cells t)"

section \<open>The pandas operations used by the notebook\<close>

text \<open>\<^verbatim>\<open>pd.Series(seq)\<close>: the values of the sequence under the positions \<open>0, 1, \<dots>\<close>.\<close>

definition Series :: "'a list \<Rightarrow> (nat, 'a) series" where
  "Series seq = zip [0..<length seq] seq"

text \<open>
  \<^verbatim>\<open>Series.value_counts(sort=False)\<close>: one entry per distinct value, labelled by the
  value and holding its number of occurrences, in order of first appearance.
\<close>

fun bump :: "'l \<Rightarrow> ('l, nat) series \<Rightarrow> ('l, nat) series" where
  "bump x [] = [(x, 1)]"
| "bump x ((k, c) # kcs) = (if k = x then (k, c + 1) # kcs else (k, c) # bump x kcs)"

definition value_counts :: "('i, 'l) series \<Rightarrow> ('l, nat) series" where
  "value_counts s = foldl (\<lambda>acc x. bump x acc) [] (map snd s)"

text \<open>\<^verbatim>\<open>Series.sort_index()\<close>: the entries in ascending order of their labels.\<close>

definition sort_index :: "('l::linorder, 'v) series \<Rightarrow> ('l, 'v) series" where
  "sort_index s = sort_key fst s"

text \<open>\<^verbatim>\<open>Series.sum()\<close> on finite values.\<close>

definition series_sum :: "('l, 'v::monoid_add) series \<Rightarrow> 'v" where
  "series_sum s = sum_list (map snd s)"

text \<open>\<^verbatim>\<open>series / scalar\<close>: elementwise true division, the labels kept.\<close>

definition series_div :: "('l, rat) series \<Rightarrow> rat \<Rightarrow> ('l, pyfloat) series" where
  "series_div s d = map (\<lambda>(k, x). (k, fdiv x d)) s"

text \<open>Integer counts enter a true division as floats.\<close>

definition astype_float :: "('l, nat) series \<Rightarrow> ('l, rat) series" where
  "astype_float s = map (\<lambda>(k, c). (k, of_nat c)) s"

section \<open>\<^verbatim>\<open>pmf_from_seq\<close>\<close>

text \<open>
  \<^verbatim>\<open>
  def pmf_from_seq(seq):
      pmf = pd.Series(seq).value_counts(sort=False).sort_index()
      pmf /= pmf.sum()
      return pmf
  \<close>
  No statement of the body raises, so every result is a returned Series.
\<close>

definition pmf_from_seq :: "'l::linorder list \<Rightarrow> error + ('l, pyfloat) series" where
  "pmf_from_seq seq =
     (let pmf = sort_index (value_counts (Series seq));
          pmf = series_div (astype_float pmf) (of_nat (series_sum pmf))
      in Inr pmf)"

section \<open>Cross tabulation and the joint PMF\<close>

text \<open>
  \<^verbatim>\<open>pd.crosstab(a, b, rownames=[rowname], colnames=[colname])\<close>: arrays of unequal length
  are refused with \<^verbatim>\<open>ValueError\<close>; otherwise the rows are the sorted distinct values of
  \<open>a\<close>, the columns the sorted distinct values of \<open>b\<close>, and a cell counts the positions
  at which its row label and its column label occur together.
\<close>

definition crosstab ::
  "'l::linorder list \<Rightarrow> 'l list \<Rightarrow> string \<Rightarrow> string \<Rightarrow> error + ('l, nat) frame" where
  "crosstab a b rowname colname =
     (if length a \<noteq> length b then Inl ValueError
      else
        let idx = sort (remdups a);
            cols = sort (remdups b);
            pairs = zip a b
        in Inr \<lparr>index_name = rowname, index = idx,
                 columns_name = colname, columns = cols,
                 cells = map (\<lambda>r. map (\<lambda>c. length (filter (\<lambda>p. p = (r, c)) pairs)) cols) idx\<rparr>)"

text \<open>
  \<^verbatim>\<open>
  xtab = pd.crosstab(color_sample, fruit_sample,
                     rownames=['color'], colnames=['fruit'])
  \<close>
  The two samples are random draws in the notebook; here they are parameters.
\<close>

definition xtab :: "'l::linorder list \<Rightarrow> 'l list \<Rightarrow> error + ('l, nat) frame" where
  "xtab color_sample fruit_sample = crosstab color_sample fruit_sample ''color'' ''fruit''"

text \<open>
  \<^verbatim>\<open>DataFrame.to_numpy().sum()\<close> on a table of floats: the sum of all cells. On a table
  of counts it is the exact sum of the counts, which numpy returns as long as that sum
  fits in 64 bits.
\<close>

definition to_numpy_sum :: "('l, 'v::monoid_add) frame \<Rightarrow> 'v" where
  "to_numpy_sum t = sum_list (concat (cells t))"

text \<open>
  A table of counts holds \<^verbatim>\<open>int64\<close> cells, and numpy adds them in \<^verbatim>\<open>int64\<close>: every
  addition wraps around to the range from \<open>- 2 ^ 63\<close> up to, not including, \<open>2 ^ 63\<close>.
\<close>

definition wrap64 :: "int \<Rightarrow> int" where
  "wrap64 x = (x + 2 ^ 63) mod 2 ^ 64 - 2 ^ 63"

definition int64_add :: "int \<Rightarrow> int \<Rightarrow> int" where
  "int64_add a b = wrap64 (a + b)"

definition to_numpy_sum_int64 :: "('l, int) frame \<Rightarrow> int" where
  "to_numpy_sum_int64 t = foldl int64_add 0 (concat (cells t))"

text \<open>An elementwise operation on a DataFrame keeps both axes and their names.\<close>

definition map_cells :: "('v \<Rightarrow> 'w) \<Rightarrow> ('l, 'v) frame \<Rightarrow> ('l, 'w) frame" where
  "map_cells f t =
     \<lparr>index_name = index_name t, index = index t,
      columns_name = columns_name t, columns = columns t,
      cells = map (map f) (cells t)\<rparr>"

text \<open>\<^verbatim>\<open>frame / scalar\<close>: elementwise true division.\<close>

definition frame_div :: "('l, rat) frame \<Rightarrow> rat \<Rightarrow> ('l, pyfloat) frame" where
  "frame_div t d = map_cells (\<lambda>x. fdiv x d) t"

text \<open>
  \<^verbatim>\<open>joint = xtab / xtab.to_numpy().sum()\<close>, as a function of the table it normalizes.
  The table is a cross tabulation, whose cells are \<^verbatim>\<open>int64\<close> counts, or a table of
  floats. The total of a table of counts is the wrapped \<^verbatim>\<open>int64\<close> sum; the division
  turns the cells and the total into floats and raises nothing.
\<close>

datatype 'l dataframe = Int64Frame "('l, int) frame" | Float64Frame "('l, rat) frame"

definition joint :: "'l dataframe \<Rightarrow> error + ('l, pyfloat) frame" where
  "joint xt =
     (case xt of
        Int64Frame t \<Rightarrow> Inr (frame_div (map_cells of_int t) (of_int (to_numpy_sum_int64 t)))
      | Float64Frame t \<Rightarrow> Inr (frame_div t (to_numpy_sum t)))"

section \<open>Selecting and summing along an axis\<close>

text \<open>\<^verbatim>\<open>Index.get_loc(label)\<close>: the position of a label on an axis, if it is there.\<close>

fun get_loc :: "'l list \<Rightarrow> 'l \<Rightarrow> nat option" where
  "get_loc [] x = None"
| "get_loc (y # ys) x = (if y = x then Some 0 else map_option Suc (get_loc ys x))"

definition column :: "('l, 'v) frame \<Rightarrow> nat \<Rightarrow> 'v list" where
  "column t k = map (\<lambda>r. r ! k) (cells t)"

text \<open>
  \<^verbatim>\<open>frame[val]\<close> selects the column labelled \<open>val\<close> as a Series over the row labels,
  \<^verbatim>\<open>frame.loc[val]\<close> the row labelled \<open>val\<close> as a Series over the column labels; both
  raise \<^verbatim>\<open>KeyError\<close> when the label is not on the axis.
\<close>

definition getitem :: "('l, 'v) frame \<Rightarrow> 'l \<Rightarrow> error + ('l, 'v) series" where
  "getitem t val =
     (case get_loc (columns t) val of
        None \<Rightarrow> Inl KeyError
      | Some k \<Rightarrow> Inr (zip (index t) (column t k)))"

definition loc :: "('l, 'v) frame \<Rightarrow> 'l \<Rightarrow> error + ('l, 'v) series" where
  "loc t val =
     (case get_loc (index t) val of
        None \<Rightarrow> Inl KeyError
      | Some i \<Rightarrow> Inr (zip (columns t) (cells t ! i)))"

text \<open>
  \<^verbatim>\<open>frame.sum(axis=0)\<close> adds up each column, giving a Series over the column labels;
  \<^verbatim>\<open>frame.sum(axis=1)\<close> adds up each row, giving a Series over the row labels.
\<close>

definition sum_axis0 :: "('l, 'v::monoid_add) frame \<Rightarrow> ('l, 'v) series" where
  "sum_axis0 t = zip (columns t) (map (\<lambda>k. sum_list (column t k)) [0..<length (columns t)])"

definition sum_axis1 :: "('l, 'v::monoid_add) frame \<Rightarrow> ('l, 'v) series" where
  "sum_axis1 t = zip (index t) (map sum_list (cells t))"

section \<open>\<^verbatim>\<open>conditional\<close> and \<^verbatim>\<open>marginal\<close>\<close>

text \<open>
  \<^verbatim>\<open>
  def conditional(joint, name, value):
      if joint.columns.name == name:
          cond = joint[value]
      elif joint.index.name == name:
          cond = joint.loc[value]
      return cond / cond.sum()
  \<close>
  When neither test holds, \<^verbatim>\<open>cond\<close> is unbound at the \<^verbatim>\<open>return\<close>, which raises
  \<^verbatim>\<open>UnboundLocalError\<close>.
\<close>

definition conditional :: "('l, rat) frame \<Rightarrow> string \<Rightarrow> 'l \<Rightarrow> error + ('l, pyfloat) series" where
  "conditional jt name val =
     (case (if columns_name jt = name then getitem jt val
            else if index_name jt = name then loc jt val
            else Inl UnboundLocalError) of
        Inl e \<Rightarrow> Inl e
      | Inr cond \<Rightarrow> Inr (series_div cond (series_sum cond)))"

text \<open>
  \<^verbatim>\<open>
  def marginal(joint, name):
      if joint.columns.name == name:
          return joint.sum(axis=0)
      elif joint.index.name == name:
          return joint.sum(axis=1)
  \<close>
  When neither test holds the function ends without \<^verbatim>\<open>return\<close>: the call returns
  Python's \<^verbatim>\<open>None\<close>, here \<open>Inr None\<close>.
\<close>

definition marginal :: "('l, rat) frame \<Rightarrow> string \<Rightarrow> error + ('l, rat) series option" where
  "marginal jt name =
     (if columns_name jt = name then Inr (Some (sum_axis0 jt))
      else if index_name jt = name then Inr (Some (sum_axis1 jt))
      else Inr None)"

section \<open>The law of total probability, as a computation\<close>

text \<open>
  \<open>cond_prob jt name v x\<close> is the entry \<^verbatim>\<open>conditional(joint, name, v)[x]\<close> when the call
  returns and the entry is a finite number. \<open>total_probability jt name x\<close> is the sum,
  over the entries \<open>(v, p)\<close> of \<^verbatim>\<open>marginal(joint, name)\<close>, of \<open>p\<close> times that entry; it is
  \<open>None\<close> when \<open>marginal\<close> returns no Series or one of the entries is not available.
\<close>

definition cond_prob :: "('l, rat) frame \<Rightarrow> string \<Rightarrow> 'l \<Rightarrow> 'l \<Rightarrow> rat option" where
  "cond_prob jt name v x =
     (case conditional jt name v of
        Inl e \<Rightarrow> None
      | Inr c \<Rightarrow> (case map_of c x of Some (Fin q) \<Rightarrow> Some q | _ \<Rightarrow> None))"

definition total_probability :: "('l, rat) frame \<Rightarrow> string \<Rightarrow> 'l \<Rightarrow> rat option" where
  "total_probability jt name x =
     (case marginal jt name of
        Inr (Some m) \<Rightarrow>
          map_option sum_list
            (those (map (\<lambda>(v, p). map_option (\<lambda>q. p * q) (cond_prob jt name v x)) m))
      | _ \<Rightarrow> None)"

section \<open>Example tables\<close>

text \<open>
  The counts of the samples \<^verbatim>\<open>a = ['r','r','g']\<close> and \<^verbatim>\<open>b = ['x','y','x']\<close>, a table
  of counts that are all zero, a table of counts whose sum is \<open>2 ^ 63\<close>, the joint PMF of
  the two samples, a table of floats that are all zero, a joint PMF whose row \<^verbatim>\<open>g\<close> is
  empty, and a joint PMF whose two axes carry the same name.
\<close>

definition example_counts :: "(string, int) frame" where
  "example_counts =
     \<lparr>index_name = ''a'', index = [''g'', ''r''],
      columns_name = ''b'', columns = [''x'', ''y''],
      cells = [[1, 0], [1, 1]]\<rparr>"

definition all_zero_counts :: "(string, int) frame" where
  "all_zero_counts =
     \<lparr>index_name = ''a'', index = [''g'', ''r''],
      columns_name = ''b'', columns = [''x'', ''y''],
      cells = [[0, 0], [0, 0]]\<rparr>"

definition overflow_counts :: "(string, int) frame" where
  "overflow_counts =
     \<lparr>index_name = ''a'', index = [''g'', ''r''],
      columns_name = ''b'', columns = [''x'', ''y''],
      cells = [[2 ^ 62, 2 ^ 62], [0, 0]]\<rparr>"

definition example_joint :: "(string, rat) frame" where
  "example_joint =
     \<lparr>index_name = ''a'', index = [''g'', ''r''],
      columns_name = ''b'', columns = [''x'', ''y''],
      cells = [[1 / 3, 0], [1 / 3, 1 / 3]]\<rparr>"

definition zero_counts :: "(string, rat) frame" where
  "zero_counts =
     \<lparr>index_name = ''a'', index = [''g'', ''r''],
      columns_name = ''b'', columns = [''x'', ''y''],
      cells = [[0, 0], [0, 0]]\<rparr>"

definition empty_row_joint :: "(string, rat) frame" where
  "empty_row_joint =
     \<lparr>index_name = ''a'', index = [''g'', ''r''],
      columns_name = ''b'', columns = [''x'', ''y''],
      cells = [[0, 0], [1 / 2, 1 / 2]]\<rparr>"

definition same_name_joint :: "(string, rat) frame" where
  "same_name_joint =
     \<lparr>index_name = ''v'', index = [''p'', ''q''],
      columns_name = ''v'', columns = [''p'', ''q''],
      cells = [[1 / 2, 1 / 4], [0, 1 / 4]]\<rparr>"

section \<open>Counting lemmas\<close>

lemma bump_keys: "fst ` set (bump x s) = insert x (fst ` set s)"
  by (induction x s rule: bump.induct) auto

lemma bump_distinct: "distinct (map fst s) \<Longrightarrow> distinct (map fst (bump x s))"
proof (induction s)
  case Nil
  then show ?case by simp
next
  case (Cons p s)
  obtain k c where p: "p = (k, c)" by (cases p)
  from Cons show ?case
    by (auto simp: p bump_keys)
qed

lemma bump_counts:
  assumes "\<forall>(k, c) \<in> set s. c = count_list ys k"
    and "x \<notin> fst ` set s \<Longrightarrow> count_list ys x = 0"
    and "distinct (map fst s)"
  shows "\<forall>(k, c) \<in> set (bump x s). c = count_list (ys @ [x]) k"
  using assms
proof (induction s)
  case Nil
  then show ?case by simp
next
  case (Cons p s)
  obtain k c where p: "p = (k, c)" by (cases p)
  show ?case
  proof (cases "k = x")
    case True
    with Cons.prems show ?thesis
      by (force simp: p)
  next
    case False
    have "\<forall>(k, c) \<in> set (bump x s). c = count_list (ys @ [x]) k"
      using Cons.prems False by (intro Cons.IH) (auto simp: p)
    with Cons.prems False show ?thesis
      by (auto simp: p)
  qed
qed

lemma value_counts_inv:
  "distinct (map fst (foldl (\<lambda>acc x. bump x acc) [] ys)) \<and>
   set (map fst (foldl (\<lambda>acc x. bump x acc) [] ys)) = set ys \<and>
   (\<forall>(k, c) \<in> set (foldl (\<lambda>acc x. bump x acc) [] ys). c = count_list ys k)"
proof (induction ys rule: rev_induct)
  case Nil
  then show ?case by simp
next
  case (snoc x ys)
  let ?s = "foldl (\<lambda>acc x. bump x acc) [] ys"
  have zero: "x \<notin> fst ` set ?s \<Longrightarrow> count_list ys x = 0"
    using snoc by (simp add: count_list_0_iff)
  have "\<forall>(k, c) \<in> set (bump x ?s). c = count_list (ys @ [x]) k"
    using snoc zero by (intro bump_counts) auto
  moreover have "distinct (map fst (bump x ?s))"
    using snoc by (simp add: bump_distinct)
  moreover have "set (map fst (bump x ?s)) = set (ys @ [x])"
    using snoc by (simp add: bump_keys)
  ultimately show ?case by simp
qed

lemma snd_Series: "map snd (Series seq) = seq"
  by (simp add: Series_def)

lemma pairs_determined:
  "\<forall>(k, c) \<in> set s. c = f k \<Longrightarrow> s = map (\<lambda>k. (k, f k)) (map fst s)"
  by (induction s) auto

lemma sorted_counts:
  "sort_index (value_counts (Series seq)) =
     map (\<lambda>k. (k, count_list seq k)) (sorted_list_of_set (set seq))"
proof -
  let ?vc = "value_counts (Series seq)"
  let ?s = "sort_index ?vc"
  have inv: "distinct (map fst ?vc)" "set (map fst ?vc) = set seq"
    "\<forall>(k, c) \<in> set ?vc. c = count_list seq k"
    using value_counts_inv [of seq] by (simp_all add: value_counts_def snd_Series)
  have "set ?s = set ?vc"
    by (simp add: sort_index_def)
  with inv(3) have "?s = map (\<lambda>k. (k, count_list seq k)) (map fst ?s)"
    by (intro pairs_determined) simp
  moreover have "sorted (map fst ?s)"
    by (simp add: sort_index_def)
  moreover have "distinct (map fst ?s)"
    using inv(1) by (simp add: sort_index_def distinct_map)
  moreover have "set (map fst ?s) = set seq"
    using inv(2) by (simp add: sort_index_def)
  ultimately show ?thesis
    by (metis sorted_list_of_set.idem_if_sorted_distinct)
qed

lemma sum_counts: "(\<Sum>k\<leftarrow>sorted_list_of_set (set seq). count_list seq k) = length seq"
proof -
  have "(\<Sum>k\<leftarrow>sorted_list_of_set (set seq). count_list seq k) = sum (count_list seq) (set seq)"
    by (simp add: sum_list_distinct_conv_sum_set)
  then show ?thesis
    by (simp add: sum_count_set)
qed

lemma count_pairs_card:
  "length a = length b \<Longrightarrow>
   length (filter (\<lambda>p. p = (r, c)) (zip a b)) = card {n. n < length a \<and> a ! n = r \<and> b ! n = c}"
proof -
  assume len: "length a = length b"
  have "{i. i < length (zip a b) \<and> zip a b ! i = (r, c)} = {n. n < length a \<and> a ! n = r \<and> b ! n = c}"
    using len by auto
  then show ?thesis
    by (simp add: length_filter_conv_card)
qed

lemma sum_concat_product:
  "sum_list (concat (map (\<lambda>r. map (\<lambda>c. f (r, c)) cols) idx)) = sum_list (map f (List.product idx cols))"
  by (induction idx) (simp_all add: comp_def)

lemma count_total:
  assumes "distinct ys" "set xs \<subseteq> set ys"
  shows "(\<Sum>y\<leftarrow>ys. length (filter (\<lambda>p. p = y) xs)) = length xs"
proof -
  have "(\<Sum>y\<leftarrow>ys. length (filter (\<lambda>p. p = y) xs)) = (\<Sum>y\<leftarrow>ys. count_list xs y)"
    by (simp add: count_list_eq_length_filter eq_commute)
  also have "\<dots> = sum (count_list xs) (set ys)"
    using assms(1) by (simp add: sum_list_distinct_conv_sum_set)
  also have "\<dots> = length xs"
    using assms(2) by (simp add: sum_count_set)
  finally show ?thesis .
qed

section \<open>Lemmas about tables\<close>

lemma sum_list_div: "(\<Sum>x\<leftarrow>xs. x / s) = sum_list xs / (s::rat)"
  by (induction xs) (simp_all add: add_divide_distrib)

lemma cells_map_cells: "cells (map_cells f t) = map (map f) (cells t)"
  by (simp add: map_cells_def)

lemma to_numpy_sum_div:
  "to_numpy_sum (map_cells (\<lambda>x. x / s) t) = to_numpy_sum t / (s::rat)"
  by (simp add: to_numpy_sum_def cells_map_cells sum_list_div flip: map_concat)

lemma map_cells_cong:
  "(\<And>x. x \<in> set (concat (cells t)) \<Longrightarrow> f x = g x) \<Longrightarrow> map_cells f t = map_cells g t"
  by (auto simp: map_cells_def)

lemma nonneg_sum_zero:
  "\<forall>x \<in> set xs. 0 \<le> (x::rat) \<Longrightarrow> sum_list xs = 0 \<Longrightarrow> \<forall>x \<in> set xs. x = 0"
  by (simp add: sum_list_nonneg_eq_0_iff)

lemma wrap64_self: "- (2 ^ 63) \<le> x \<Longrightarrow> x < 2 ^ 63 \<Longrightarrow> wrap64 x = x"
  by (simp add: wrap64_def)

lemma wrap64_add_left: "wrap64 (wrap64 a + b) = wrap64 (a + b)"
proof -
  have "(wrap64 a + b + 2 ^ 63) mod 2 ^ 64 = ((a + 2 ^ 63) mod 2 ^ 64 + b) mod 2 ^ 64"
    by (simp add: wrap64_def)
  also have "\<dots> = (a + b + 2 ^ 63) mod 2 ^ 64"
    by (simp add: mod_add_left_eq add.assoc add.commute [of b])
  finally show ?thesis
    by (simp add: wrap64_def)
qed

lemma foldl_int64_add: "foldl int64_add (wrap64 a) xs = wrap64 (a + sum_list xs)"
proof (induction xs arbitrary: a)
  case Nil
  then show ?case by simp
next
  case (Cons x xs)
  have "foldl int64_add (wrap64 a) (x # xs) = foldl int64_add (wrap64 (a + x)) xs"
    by (simp add: int64_add_def wrap64_add_left)
  then show ?case
    by (simp add: Cons.IH add.assoc)
qed

lemma to_numpy_sum_int64_wraps: "to_numpy_sum_int64 t = wrap64 (sum_list (concat (cells t)))"
  using foldl_int64_add [of 0 "concat (cells t)"]
  by (simp add: to_numpy_sum_int64_def wrap64_self)

lemma sum_list_of_int_div: "(\<Sum>x\<leftarrow>xs. rat_of_int x / s) = rat_of_int (sum_list xs) / s"
  by (induction xs) (simp_all add: add_divide_distrib)

lemma nonneg_int_sum_zero:
  "\<forall>x \<in> set xs. 0 \<le> (x::int) \<Longrightarrow> sum_list xs = 0 \<Longrightarrow> \<forall>x \<in> set xs. x = 0"
  by (simp add: sum_list_nonneg_eq_0_iff)

lemma get_loc_None: "get_loc xs x = None \<longleftrightarrow> x \<notin> set xs"
  by (induction xs) auto

lemma get_loc_nth: "distinct xs \<Longrightarrow> i < length xs \<Longrightarrow> get_loc xs (xs ! i) = Some i"
proof (induction xs arbitrary: i)
  case Nil
  then show ?case by simp
next
  case (Cons y ys)
  then show ?case
    by (cases i) auto
qed

lemma wf_frame_row: "wf_frame t \<Longrightarrow> i < length (index t) \<Longrightarrow> length (cells t ! i) = length (columns t)"
  by (simp add: wf_frame_def list_all_length)

lemma length_column: "length (column t k) = length (cells t)"
  by (simp add: column_def)

lemma normalized_slice: "sum_list xs \<noteq> 0 \<Longrightarrow> (\<Sum>x\<leftarrow>xs. x / sum_list xs) = (1::rat)"
  by (simp add: sum_list_div)

lemma series_div_zip:
  "series_div (zip ks xs) d = zip ks (map (\<lambda>x. fdiv x d) xs)"
  by (simp add: series_div_def zip_map2)

lemma series_sum_zip: "length ks = length xs \<Longrightarrow> series_sum (zip ks xs) = sum_list xs"
  by (simp add: series_sum_def)

lemma conditional_row:
  assumes "wf_frame jt" "columns_name jt \<noteq> name" "index_name jt = name" "i < length (index jt)"
  shows "conditional jt name (index jt ! i) =
    Inr (zip (columns jt) (map (\<lambda>x. fdiv x (sum_list (cells jt ! i))) (cells jt ! i)))"
proof -
  have "get_loc (index jt) (index jt ! i) = Some i"
    using assms by (simp add: get_loc_nth wf_frame_def)
  moreover have "length (columns jt) = length (cells jt ! i)"
    using assms by (simp add: wf_frame_row)
  ultimately show ?thesis
    using assms(2,3) by (simp add: conditional_def loc_def series_div_zip series_sum_zip)
qed

lemma conditional_column:
  assumes "wf_frame jt" "columns_name jt = name" "k < length (columns jt)"
  shows "conditional jt name (columns jt ! k) =
    Inr (zip (index jt) (map (\<lambda>x. fdiv x (sum_list (column jt k))) (column jt k)))"
proof -
  have "get_loc (columns jt) (columns jt ! k) = Some k"
    using assms by (simp add: get_loc_nth wf_frame_def)
  moreover have "length (index jt) = length (column jt k)"
    using assms by (simp add: length_column wf_frame_def)
  ultimately show ?thesis
    using assms(2) by (simp add: conditional_def getitem_def series_div_zip series_sum_zip)
qed

lemma fdiv_nonzero: "d \<noteq> 0 \<Longrightarrow> fdiv x d = Fin (x / d)"
  by (simp add: fdiv_def)

lemma column_sums_total:
  "list_all (\<lambda>r. length r = n) rows \<Longrightarrow>
   (\<Sum>k\<leftarrow>[0..<n]. sum_list (map (\<lambda>r. r ! k) rows)) = (sum_list (concat rows) :: 'a::comm_monoid_add)"
proof (induction rows)
  case Nil
  then show ?case by simp
next
  case (Cons r rows)
  then have len: "length r = n" and rest: "list_all (\<lambda>r. length r = n) rows"
    by simp_all
  have "(\<Sum>k\<leftarrow>[0..<n]. sum_list (map (\<lambda>r. r ! k) (r # rows))) =
        (\<Sum>k\<leftarrow>[0..<n]. r ! k) + (\<Sum>k\<leftarrow>[0..<n]. sum_list (map (\<lambda>r. r ! k) rows))"
    by (simp add: sum_list_addf)
  also have "(\<Sum>k\<leftarrow>[0..<n]. r ! k) = sum_list r"
    using len map_nth [of r] by simp
  finally show ?case
    using Cons.IH [OF rest] by simp
qed

lemma sum_list_concat_rows: "sum_list (concat rows) = (\<Sum>r\<leftarrow>rows. sum_list r)"
  by (induction rows) simp_all

lemma sum_axis0_total:
  fixes t :: "('l, 'v::comm_monoid_add) frame"
  shows "wf_frame t \<Longrightarrow> series_sum (sum_axis0 t) = to_numpy_sum t"
  by (simp add: series_sum_def sum_axis0_def to_numpy_sum_def column_def wf_frame_def column_sums_total)

lemma sum_axis1_total: "wf_frame t \<Longrightarrow> series_sum (sum_axis1 t) = to_numpy_sum t"
  by (simp add: series_sum_def sum_axis1_def to_numpy_sum_def wf_frame_def sum_list_concat_rows)

lemma conditional_unknown_label:
  "name = columns_name jt \<Longrightarrow> val \<notin> set (columns jt) \<Longrightarrow> conditional jt name val = Inl KeyError"
  "name \<noteq> columns_name jt \<Longrightarrow> name = index_name jt \<Longrightarrow> val \<notin> set (index jt) \<Longrightarrow>
     conditional jt name val = Inl KeyError"
  using get_loc_None [of "columns jt" val] get_loc_None [of "index jt" val]
  by (auto simp: conditional_def getitem_def loc_def)

section \<open>Lemmas about the total probability\<close>

lemma those_map_zip:
  assumes "length xs = length ys"
    and "\<forall>i<length xs. f (xs ! i, ys ! i) = Some (g i)"
  shows "those (map f (zip xs ys)) = Some (map g [0..<length xs])"
  using assms
proof (induction xs ys arbitrary: g rule: list_induct2)
  case Nil
  then show ?case by simp
next
  case (Cons x xs y ys)
  have head: "f (x, y) = Some (g 0)"
    using Cons.prems by auto
  have "\<forall>i<length xs. f (xs ! i, ys ! i) = Some ((g \<circ> Suc) i)"
    using Cons.prems by auto
  then have tail: "those (map f (zip xs ys)) = Some (map (g \<circ> Suc) [0..<length xs])"
    by (rule Cons.IH)
  have "map g [0..<Suc (length xs)] = g 0 # map (g \<circ> Suc) [0..<length xs]"
    by (simp add: upt_conv_Cons map_Suc_upt [symmetric] del: upt_Suc)
  with head tail show ?case
    by simp
qed

lemma map_of_zip_nth:
  "length xs = length ys \<Longrightarrow> distinct xs \<Longrightarrow> i < length xs \<Longrightarrow>
   map_of (zip xs ys) (xs ! i) = Some (ys ! i)"
  by (induction xs ys arbitrary: i rule: list_induct2) (auto simp: nth_Cons split: nat.splits)

lemma map_of_zip_SomeD:
  assumes "map_of (zip xs ys) x = Some y" "length xs = length ys"
  shows "\<exists>i<length xs. xs ! i = x \<and> ys ! i = y"
proof -
  from assms(1) have "(x, y) \<in> set (zip xs ys)"
    by (rule map_of_SomeD)
  then show ?thesis
    using assms(2) by (auto simp: in_set_zip)
qed

lemma map_nth_upt: "map (\<lambda>i. f (xs ! i)) [0..<length xs] = map f xs"
  by (rule nth_equalityI) simp_all

lemma total_probability_rows:
  assumes wf: "wf_frame jt" and names: "columns_name jt \<noteq> name" "index_name jt = name"
    and nz: "\<forall>i<length (index jt). sum_list (cells jt ! i) \<noteq> 0"
    and k: "k < length (columns jt)"
  shows "total_probability jt name (columns jt ! k) = Some (sum_list (column jt k))"
proof -
  let ?n = "length (index jt)"
  let ?f = "\<lambda>(v, p). map_option (\<lambda>q. p * q) (cond_prob jt name v (columns jt ! k))"
  have cp: "cond_prob jt name (index jt ! i) (columns jt ! k) =
      Some (cells jt ! i ! k / sum_list (cells jt ! i))" if i: "i < ?n" for i
  proof -
    let ?d = "sum_list (cells jt ! i)"
    have len: "length (columns jt) = length (map (\<lambda>x. fdiv x ?d) (cells jt ! i))"
      using wf i by (simp add: wf_frame_row)
    have "distinct (columns jt)"
      using wf by (simp add: wf_frame_def)
    from map_of_zip_nth [OF len this k]
    have "map_of (zip (columns jt) (map (\<lambda>x. fdiv x ?d) (cells jt ! i))) (columns jt ! k) =
        Some (Fin (cells jt ! i ! k / ?d))"
      using nz i k len by (simp add: fdiv_nonzero)
    then show ?thesis
      by (simp add: cond_prob_def conditional_row [OF wf names i])
  qed
  have marg: "marginal jt name = Inr (Some (zip (index jt) (map sum_list (cells jt))))"
    using names by (simp add: marginal_def sum_axis1_def)
  have len: "length (index jt) = length (map sum_list (cells jt))"
    using wf by (simp add: wf_frame_def)
  have "\<forall>i<?n. ?f (index jt ! i, map sum_list (cells jt) ! i) = Some (cells jt ! i ! k)"
    using cp nz len by simp
  from those_map_zip [OF len this]
  have "those (map ?f (zip (index jt) (map sum_list (cells jt)))) =
      Some (map (\<lambda>i. cells jt ! i ! k) [0..<?n])" .
  moreover have "map (\<lambda>i. cells jt ! i ! k) [0..<?n] = column jt k"
    using map_nth_upt [of "\<lambda>r. r ! k" "cells jt"] len by (simp add: column_def)
  ultimately show ?thesis
    by (simp add: total_probability_def marg)
qed

lemma total_probability_columns:
  assumes wf: "wf_frame jt" and name: "columns_name jt = name"
    and nz: "\<forall>k<length (columns jt). sum_list (column jt k) \<noteq> 0"
    and i: "i < length (index jt)"
  shows "total_probability jt name (index jt ! i) = Some (sum_list (cells jt ! i))"
proof -
  let ?n = "length (columns jt)"
  let ?f = "\<lambda>(v, p). map_option (\<lambda>q. p * q) (cond_prob jt name v (index jt ! i))"
  let ?sums = "map (\<lambda>k. sum_list (column jt k)) [0..<?n]"
  have rows: "length (cells jt) = length (index jt)"
    using wf by (simp add: wf_frame_def)
  have cp: "cond_prob jt name (columns jt ! k) (index jt ! i) =
      Some (cells jt ! i ! k / sum_list (column jt k))" if k: "k < ?n" for k
  proof -
    let ?d = "sum_list (column jt k)"
    have len: "length (index jt) = length (map (\<lambda>x. fdiv x ?d) (column jt k))"
      using rows by (simp add: length_column)
    have "distinct (index jt)"
      using wf by (simp add: wf_frame_def)
    from map_of_zip_nth [OF len this i]
    have "map_of (zip (index jt) (map (\<lambda>x. fdiv x ?d) (column jt k))) (index jt ! i) =
        Some (Fin (cells jt ! i ! k / ?d))"
      using nz i k rows by (simp add: fdiv_nonzero column_def)
    then show ?thesis
      by (simp add: cond_prob_def conditional_column [OF wf name k])
  qed
  have marg: "marginal jt name = Inr (Some (zip (columns jt) ?sums))"
    using name by (simp add: marginal_def sum_axis0_def)
  have len: "length (columns jt) = length ?sums"
    by simp
  have "\<forall>k<?n. ?f (columns jt ! k, ?sums ! k) = Some (cells jt ! i ! k)"
    using cp nz by simp
  from those_map_zip [OF len this]
  have "those (map ?f (zip (columns jt) ?sums)) = Some (map (\<lambda>k. cells jt ! i ! k) [0..<?n])" .
  moreover have "map (\<lambda>k. cells jt ! i ! k) [0..<?n] = cells jt ! i"
    using map_nth [of "cells jt ! i"] wf_frame_row [OF wf i] by simp
  ultimately show ?thesis
    by (simp add: total_probability_def marg)
qed

section \<open>Claims about \<^verbatim>\<open>pmf_from_seq\<close>\<close>

text \<open>
  C1: for every sample sequence of length \<open>n \<ge> 1\<close>, \<open>pmf_from_seq\<close> returns a Series
  whose labels are the distinct labels of the sequence in ascending order, each mapped to
  (its number of occurrences) / \<open>n\<close>.
\<close>

theorem pmf_from_seq_frequencies:
  fixes seq :: "'l::linorder list"
  assumes "1 \<le> length seq"
  shows "pmf_from_seq seq =
    Inr (map (\<lambda>k. (k, Fin (of_nat (count_list seq k) / of_nat (length seq))))
          (sorted_list_of_set (set seq)))"
proof -
  let ?pmf = "sort_index (value_counts (Series seq))"
  have total: "series_sum ?pmf = length seq"
    by (simp add: sorted_counts series_sum_def comp_def sum_counts)
  have "of_nat (length seq) \<noteq> (0::rat)"
    using assms by (cases seq) simp_all
  then show ?thesis
    by (simp add: pmf_from_seq_def Let_def total)
      (simp add: sorted_counts astype_float_def series_div_def fdiv_def comp_def)
qed

theorem pmf_from_seq_frequencies_witness:
  "1 \<le> length [2, 1, 2 :: nat] \<and>
   pmf_from_seq [2, 1, 2 :: nat] = Inr [(1, Fin (1 / 3)), (2, Fin (2 / 3))]"
proof -
  have labels: "sorted_list_of_set (set [2, 1, 2 :: nat]) = [1, 2]"
    by code_simp
  show ?thesis
    using pmf_from_seq_frequencies [of "[2, 1, 2 :: nat]"]
    unfolding labels by simp
qed

text \<open>
  C5, as the code has it: applied to the empty sequence, \<open>pmf_from_seq\<close> reports no
  error and returns the empty Series.
\<close>

theorem pmf_from_seq_empty: "pmf_from_seq [] = Inr []"
  by (simp add: pmf_from_seq_def Series_def value_counts_def sort_index_def
      astype_float_def series_div_def)

text \<open>The empty sequence of labels is not answered with an error.\<close>

theorem pmf_from_seq_empty_counterexample: "\<not> isl (pmf_from_seq ([] :: nat list))"
  by (simp add: pmf_from_seq_def Let_def)

section \<open>Claims about the cross tabulation and the joint PMF\<close>

text \<open>
  C4: for two sample sequences \<open>a\<close> and \<open>b\<close> of equal length \<open>n\<close>, the cross tabulation
  is produced; its row labels are the sorted distinct labels of \<open>a\<close> and its column labels
  the sorted distinct labels of \<open>b\<close> (no other label appears); the cell at a row label
  and a column label is the number of positions \<open>i\<close> at which \<open>a\<close> holds the row label
  and \<open>b\<close> the column label; and all cells together sum to \<open>n\<close>.
\<close>

theorem xtab_counts:
  fixes a b :: "'l::linorder list"
  assumes "length a = length b"
  shows "\<exists>t. xtab a b = Inr t \<and> wf_frame t \<and>
    index t = sorted_list_of_set (set a) \<and>
    columns t = sorted_list_of_set (set b) \<and>
    (\<forall>i<length (index t). \<forall>k<length (columns t).
       cells t ! i ! k = card {n. n < length a \<and> a ! n = index t ! i \<and> b ! n = columns t ! k}) \<and>
    to_numpy_sum t = length a"
proof -
  let ?idx = "sort (remdups a)" and ?cols = "sort (remdups b)"
  let ?cnt = "\<lambda>p. length (filter (\<lambda>q. q = p) (zip a b))"
  let ?t = "\<lparr>index_name = ''color'', index = ?idx, columns_name = ''fruit'', columns = ?cols,
             cells = map (\<lambda>r. map (\<lambda>c. ?cnt (r, c)) ?cols) ?idx\<rparr>"
  have run: "xtab a b = Inr ?t"
    using assms by (simp add: xtab_def crosstab_def Let_def)
  have wf: "wf_frame ?t"
    by (simp add: wf_frame_def list_all_iff)
  have axes: "index ?t = sorted_list_of_set (set a)" "columns ?t = sorted_list_of_set (set b)"
    by (simp_all add: sorted_list_of_set_sort_remdups)
  have entry: "\<forall>i<length (index ?t). \<forall>k<length (columns ?t).
       cells ?t ! i ! k = card {n. n < length a \<and> a ! n = index ?t ! i \<and> b ! n = columns ?t ! k}"
    using assms by (simp add: count_pairs_card)
  have "set (zip a b) \<subseteq> set (List.product ?idx ?cols)"
    by (auto dest: set_zip_leftD set_zip_rightD)
  moreover have "distinct (List.product ?idx ?cols)"
    by (simp add: distinct_product)
  ultimately have "sum_list (map ?cnt (List.product ?idx ?cols)) = length (zip a b)"
    by (rule count_total [rotated])
  then have total: "to_numpy_sum ?t = length a"
    using assms sum_concat_product [of ?cnt ?cols ?idx] by (simp add: to_numpy_sum_def)
  from run wf axes entry total show ?thesis
    by blast
qed

theorem xtab_counts_witness:
  "length [1, 1, 0 :: nat] = length [5, 6, 5 :: nat] \<and>
   (\<exists>t. xtab [1, 1, 0 :: nat] [5, 6, 5 :: nat] = Inr t \<and> wf_frame t \<and>
      index t = [0, 1] \<and> columns t = [5, 6] \<and> to_numpy_sum t = 3)"
proof -
  have rows: "sorted_list_of_set (set [1, 1, 0 :: nat]) = [0, 1]"
    by code_simp
  have cols: "sorted_list_of_set (set [5, 6, 5 :: nat]) = [5, 6]"
    by code_simp
  have len: "length [1, 1, 0 :: nat] = length [5, 6, 5 :: nat]"
    by simp
  from xtab_counts [OF len] obtain t where
    "xtab [1, 1, 0 :: nat] [5, 6, 5 :: nat] = Inr t" "wf_frame t"
    "index t = sorted_list_of_set (set [1, 1, 0 :: nat])"
    "columns t = sorted_list_of_set (set [5, 6, 5 :: nat])"
    "to_numpy_sum t = length [1, 1, 0 :: nat]"
    by blast
  then show ?thesis
    unfolding rows cols by simp
qed

text \<open>
  C7, as the code has it: for every table of counts (cells from 0 up to, not including,
  \<open>2 ^ 63\<close>) whose cells add up to a nonzero total below \<open>2 ^ 63\<close>, the normalizer
  divides every cell by the sum of all cells, and the cells of the result sum to 1 (in
  exact arithmetic; approximately, in floats). When the total is zero it reports no
  error and returns the table with every cell \<^verbatim>\<open>nan\<close>.
\<close>

theorem joint_divides_by_total:
  fixes t :: "('l, int) frame"
  assumes counts: "list_all (\<lambda>x. 0 \<le> x \<and> x < 2 ^ 63) (concat (cells t))"
  shows "(0 < sum_list (concat (cells t)) \<and> sum_list (concat (cells t)) < 2 ^ 63 \<longrightarrow>
            joint (Int64Frame t) =
              Inr (map_cells (\<lambda>x. Fin (of_int x / of_int (sum_list (concat (cells t))))) t) \<and>
            to_numpy_sum
              (map_cells (\<lambda>x. rat_of_int x / of_int (sum_list (concat (cells t)))) t) = 1) \<and>
         (sum_list (concat (cells t)) = 0 \<longrightarrow>
            joint (Int64Frame t) = Inr (map_cells (\<lambda>x. NaN) t))"
proof (intro conjI impI)
  let ?total = "sum_list (concat (cells t))"
  assume range: "0 < ?total \<and> ?total < 2 ^ 63"
  then have total: "to_numpy_sum_int64 t = ?total"
    by (simp add: to_numpy_sum_int64_wraps wrap64_self)
  have nz: "rat_of_int ?total \<noteq> 0"
    using range by simp
  show "joint (Int64Frame t) = Inr (map_cells (\<lambda>x. Fin (of_int x / of_int ?total)) t)"
    using nz by (simp add: joint_def frame_div_def total map_cells_def fdiv_def)
  have "to_numpy_sum (map_cells (\<lambda>x. rat_of_int x / of_int ?total) t) =
      rat_of_int ?total / of_int ?total"
    by (simp add: to_numpy_sum_def cells_map_cells sum_list_of_int_div flip: map_concat)
  with nz show "to_numpy_sum (map_cells (\<lambda>x. rat_of_int x / of_int ?total) t) = 1"
    by simp
next
  assume zero: "sum_list (concat (cells t)) = 0"
  have "\<forall>x \<in> set (concat (cells t)). 0 \<le> x"
    using counts by (simp add: list_all_iff)
  from nonneg_int_sum_zero [OF this zero]
  have "map_cells (\<lambda>x. fdiv (rat_of_int x) 0) t = map_cells (\<lambda>x. NaN) t"
    by (intro map_cells_cong) (auto simp: fdiv_def)
  moreover have "to_numpy_sum_int64 t = 0"
    by (simp add: to_numpy_sum_int64_wraps zero wrap64_self)
  ultimately show "joint (Int64Frame t) = Inr (map_cells (\<lambda>x. NaN) t)"
    by (simp add: joint_def frame_div_def map_cells_def)
qed

theorem joint_divides_by_total_witness:
  "list_all (\<lambda>x. 0 \<le> x \<and> x < 2 ^ 63) (concat (cells example_counts)) \<and>
   sum_list (concat (cells example_counts)) = 3 \<and>
   joint (Int64Frame example_counts) = Inr (map_cells Fin example_joint) \<and>
   to_numpy_sum example_joint = 1 \<and>
   list_all (\<lambda>x. 0 \<le> x \<and> x < 2 ^ 63) (concat (cells all_zero_counts)) \<and>
   sum_list (concat (cells all_zero_counts)) = 0 \<and>
   joint (Int64Frame all_zero_counts) = Inr (map_cells (\<lambda>x. NaN) all_zero_counts)"
proof -
  have counts: "list_all (\<lambda>x. 0 \<le> x \<and> x < 2 ^ 63) (concat (cells example_counts))"
    by (simp add: example_counts_def)
  have total: "sum_list (concat (cells example_counts)) = 3"
    by (simp add: example_counts_def)
  have thirds: "map_cells (\<lambda>x. rat_of_int x / 3) example_counts = example_joint"
    by (simp add: map_cells_def example_counts_def example_joint_def)
  have fin_thirds:
    "map_cells (\<lambda>x. Fin (rat_of_int x / 3)) example_counts = map_cells Fin example_joint"
    by (simp add: map_cells_def example_counts_def example_joint_def)
  have zeros: "list_all (\<lambda>x. 0 \<le> x \<and> x < 2 ^ 63) (concat (cells all_zero_counts))"
    and zero: "sum_list (concat (cells all_zero_counts)) = 0"
    by (simp_all add: all_zero_counts_def)
  show ?thesis
    using joint_divides_by_total [OF counts] joint_divides_by_total [OF zeros] counts zeros zero
    by (simp add: total thirds fin_thirds)
qed

text \<open>
  The all-zero table of counts is answered with a table of \<^verbatim>\<open>nan\<close>, not with an error.
  The cells of \<open>overflow_counts\<close> add up to \<open>2 ^ 63\<close>: the \<^verbatim>\<open>int64\<close> total wraps to
  \<open>- 2 ^ 63\<close>, every cell is divided by that, and the cells of the result sum to \<open>- 1\<close>.
\<close>

theorem joint_zero_total_counterexample:
  "sum_list (concat (cells all_zero_counts)) = 0 \<and>
   joint (Int64Frame all_zero_counts) =
     Inr \<lparr>index_name = ''a'', index = [''g'', ''r''],
          columns_name = ''b'', columns = [''x'', ''y''],
          cells = [[NaN, NaN], [NaN, NaN]]\<rparr> \<and>
   sum_list (concat (cells overflow_counts)) = 2 ^ 63 \<and>
   joint (Int64Frame overflow_counts) =
     Inr \<lparr>index_name = ''a'', index = [''g'', ''r''],
          columns_name = ''b'', columns = [''x'', ''y''],
          cells = [[Fin (- 1 / 2), Fin (- 1 / 2)], [Fin 0, Fin 0]]\<rparr>"
proof -
  have "to_numpy_sum_int64 all_zero_counts = 0"
    by (simp add: to_numpy_sum_int64_def int64_add_def wrap64_def all_zero_counts_def)
  moreover have "to_numpy_sum_int64 overflow_counts = - (2 ^ 63)"
    by (simp add: to_numpy_sum_int64_def int64_add_def wrap64_def overflow_counts_def)
  ultimately show ?thesis
    by (simp add: joint_def frame_div_def map_cells_def fdiv_def
        all_zero_counts_def overflow_counts_def)
qed

text \<open>
  C8: for every table whose cells already sum to 1, the normalizer returns the table with
  every cell unchanged.
\<close>

theorem joint_of_normalized:
  fixes t :: "('l, rat) frame"
  assumes "to_numpy_sum t = 1"
  shows "joint (Float64Frame t) = Inr (map_cells Fin t)"
  using assms by (simp add: joint_def frame_div_def fdiv_def)

theorem joint_of_normalized_witness:
  "to_numpy_sum example_joint = 1 \<and>
   joint (Float64Frame example_joint) = Inr (map_cells Fin example_joint)"
proof -
  have one: "to_numpy_sum example_joint = 1"
    by (simp add: to_numpy_sum_def example_joint_def)
  from joint_of_normalized [OF one] one show ?thesis
    by simp
qed

section \<open>Claims about \<^verbatim>\<open>conditional\<close> and \<^verbatim>\<open>marginal\<close>\<close>

text \<open>
  C2, as the code has it: for every joint PMF whose two axis names differ, an axis name
  that is one of them, a label on that axis, and a selected slice whose sum is not zero,
  \<open>conditional\<close> returns the slice at that label (the row of the label when the name is
  the row axis name, the column of the label when it is the column axis name) with every
  entry divided by the sum of the slice, labelled by the other axis; the entries of the
  result sum to 1.
\<close>

theorem conditional_renormalizes:
  fixes jt :: "('l, rat) frame"
  assumes "wf_frame jt" and "index_name jt \<noteq> columns_name jt"
  shows "(\<forall>i<length (index jt). sum_list (cells jt ! i) \<noteq> 0 \<longrightarrow>
            conditional jt (index_name jt) (index jt ! i) =
              Inr (zip (columns jt) (map (\<lambda>x. Fin (x / sum_list (cells jt ! i))) (cells jt ! i))) \<and>
            (\<Sum>x\<leftarrow>cells jt ! i. x / sum_list (cells jt ! i)) = 1) \<and>
         (\<forall>k<length (columns jt). sum_list (column jt k) \<noteq> 0 \<longrightarrow>
            conditional jt (columns_name jt) (columns jt ! k) =
              Inr (zip (index jt) (map (\<lambda>x. Fin (x / sum_list (column jt k))) (column jt k))) \<and>
            (\<Sum>x\<leftarrow>column jt k. x / sum_list (column jt k)) = 1)"
  using assms
  by (simp add: conditional_row conditional_column fdiv_nonzero normalized_slice)

theorem conditional_renormalizes_witness:
  "wf_frame example_joint \<and> index_name example_joint \<noteq> columns_name example_joint \<and>
   conditional example_joint ''a'' ''r'' = Inr [(''x'', Fin (1 / 2)), (''y'', Fin (1 / 2))] \<and>
   conditional example_joint ''b'' ''x'' = Inr [(''g'', Fin (1 / 2)), (''r'', Fin (1 / 2))]"
proof -
  have wf: "wf_frame example_joint"
    by (simp add: wf_frame_def example_joint_def)
  have names: "index_name example_joint \<noteq> columns_name example_joint"
    by (simp add: example_joint_def)
  have row: "(1::nat) < length (index example_joint)" "sum_list (cells example_joint ! 1) \<noteq> 0"
    by (simp_all add: example_joint_def)
  have col: "(0::nat) < length (columns example_joint)" "sum_list (column example_joint 0) \<noteq> 0"
    by (simp_all add: example_joint_def column_def)
  from conditional_renormalizes [OF wf names] row col
  have "conditional example_joint (index_name example_joint) (index example_joint ! 1) =
          Inr (zip (columns example_joint)
            (map (\<lambda>x. Fin (x / sum_list (cells example_joint ! 1))) (cells example_joint ! 1)))"
    and "conditional example_joint (columns_name example_joint) (columns example_joint ! 0) =
          Inr (zip (index example_joint)
            (map (\<lambda>x. Fin (x / sum_list (column example_joint 0))) (column example_joint 0)))"
    by blast+
  then show ?thesis
    using wf names by (simp add: example_joint_def column_def)
qed

text \<open>
  The hypothesis on the sum is needed: in the joint PMF \<open>empty_row_joint\<close> the row \<^verbatim>\<open>g\<close>
  sums to zero, and conditioning on it returns \<^verbatim>\<open>nan\<close> entries, which do not sum to 1.
\<close>

theorem conditional_empty_slice_counterexample:
  "wf_frame empty_row_joint \<and> to_numpy_sum empty_row_joint = 1 \<and>
   list_all (\<lambda>x. 0 \<le> x) (concat (cells empty_row_joint)) \<and>
   index_name empty_row_joint = ''a'' \<and> columns_name empty_row_joint \<noteq> ''a'' \<and>
   ''g'' \<in> set (index empty_row_joint) \<and>
   conditional empty_row_joint ''a'' ''g'' = Inr [(''x'', NaN), (''y'', NaN)]"
  by (simp add: wf_frame_def to_numpy_sum_def empty_row_joint_def conditional_def loc_def
      series_div_def series_sum_def fdiv_def)

text \<open>
  C3: for every joint PMF and axis name that is one of its two axis names, \<open>marginal\<close>
  returns the sums over the other axis (per column when the name is the column axis name,
  per row otherwise), not renormalized, and the entries of the result sum to the total of
  all cells of the table.
\<close>

theorem marginal_sums_other_axis:
  fixes jt :: "('l, rat) frame"
  assumes "wf_frame jt" and "name = columns_name jt \<or> name = index_name jt"
  shows "\<exists>s. marginal jt name = Inr (Some s) \<and>
    s = (if name = columns_name jt
         then zip (columns jt) (map (\<lambda>k. sum_list (column jt k)) [0..<length (columns jt)])
         else zip (index jt) (map sum_list (cells jt))) \<and>
    series_sum s = to_numpy_sum jt"
proof (cases "name = columns_name jt")
  case True
  then show ?thesis
    using assms(1) sum_axis0_total [of jt] by (simp add: marginal_def sum_axis0_def)
next
  case False
  with assms show ?thesis
    using sum_axis1_total [of jt] by (simp add: marginal_def sum_axis1_def)
qed

theorem marginal_sums_other_axis_witness:
  "wf_frame example_joint \<and>
   marginal example_joint ''a'' = Inr (Some [(''g'', 1 / 3), (''r'', 2 / 3)]) \<and>
   marginal example_joint ''b'' = Inr (Some [(''x'', 2 / 3), (''y'', 1 / 3)]) \<and>
   to_numpy_sum example_joint = 1"
proof -
  have wf: "wf_frame example_joint"
    by (simp add: wf_frame_def example_joint_def)
  have a: "''a'' = columns_name example_joint \<or> ''a'' = index_name example_joint"
    and b: "''b'' = columns_name example_joint \<or> ''b'' = index_name example_joint"
    by (simp_all add: example_joint_def)
  have upt: "[0..<2] = [0, Suc 0]"
    by (simp add: upt_rec)
  from marginal_sums_other_axis [OF wf a] marginal_sums_other_axis [OF wf b] wf
  show ?thesis
    by (simp add: example_joint_def column_def to_numpy_sum_def upt)
qed


text \<open>
  C6, as the code has it: \<open>conditional\<close> raises \<^verbatim>\<open>UnboundLocalError\<close> when the axis
  name is neither axis name, and \<^verbatim>\<open>KeyError\<close> when the label is not on the axis that
  the name selects (the column axis when the name is the column axis name, the row axis
  otherwise). When the selected slice sums to zero it reports no error and returns the
  slice with every entry divided by zero. \<open>marginal\<close> reports no error when the axis name
  is neither axis name: it returns \<^verbatim>\<open>None\<close>.
\<close>

theorem extractor_failures:
  fixes jt :: "('l, rat) frame"
  shows "(name \<noteq> columns_name jt \<and> name \<noteq> index_name jt \<longrightarrow>
            conditional jt name val = Inl UnboundLocalError \<and> marginal jt name = Inr None) \<and>
         (name = columns_name jt \<and> val \<notin> set (columns jt) \<longrightarrow>
            conditional jt name val = Inl KeyError) \<and>
         (name \<noteq> columns_name jt \<and> name = index_name jt \<and> val \<notin> set (index jt) \<longrightarrow>
            conditional jt name val = Inl KeyError) \<and>
         (wf_frame jt \<and> name \<noteq> columns_name jt \<and> name = index_name jt \<longrightarrow>
            (\<forall>i<length (index jt). sum_list (cells jt ! i) = 0 \<longrightarrow>
               conditional jt name (index jt ! i) =
                 Inr (zip (columns jt) (map (\<lambda>x. fdiv x 0) (cells jt ! i))))) \<and>
         (wf_frame jt \<and> name = columns_name jt \<longrightarrow>
            (\<forall>k<length (columns jt). sum_list (column jt k) = 0 \<longrightarrow>
               conditional jt name (columns jt ! k) =
                 Inr (zip (index jt) (map (\<lambda>x. fdiv x 0) (column jt k)))))"
proof (intro conjI impI allI)
  assume "name \<noteq> columns_name jt \<and> name \<noteq> index_name jt"
  then have neither: "columns_name jt \<noteq> name" "index_name jt \<noteq> name"
    by blast+
  show "conditional jt name val = Inl UnboundLocalError"
    unfolding conditional_def using neither by simp
  show "marginal jt name = Inr None"
    unfolding marginal_def using neither by simp
next
  assume "name = columns_name jt \<and> val \<notin> set (columns jt)"
  then show "conditional jt name val = Inl KeyError"
    using conditional_unknown_label(1) [of name jt val] by blast
next
  assume "name \<noteq> columns_name jt \<and> name = index_name jt \<and> val \<notin> set (index jt)"
  then show "conditional jt name val = Inl KeyError"
    using conditional_unknown_label(2) [of name jt val] by blast
next
  fix i
  assume "wf_frame jt \<and> name \<noteq> columns_name jt \<and> name = index_name jt"
    and i: "i < length (index jt)" and zero: "sum_list (cells jt ! i) = 0"
  then have "wf_frame jt" "columns_name jt \<noteq> name" "index_name jt = name"
    by blast+
  from conditional_row [OF this i] show "conditional jt name (index jt ! i) =
      Inr (zip (columns jt) (map (\<lambda>x. fdiv x 0) (cells jt ! i)))"
    unfolding zero .
next
  fix k
  assume "wf_frame jt \<and> name = columns_name jt"
    and k: "k < length (columns jt)" and zero: "sum_list (column jt k) = 0"
  then have "wf_frame jt" "columns_name jt = name"
    by blast+
  from conditional_column [OF this k] show "conditional jt name (columns jt ! k) =
      Inr (zip (index jt) (map (\<lambda>x. fdiv x 0) (column jt k)))"
    unfolding zero .
qed

theorem extractor_failures_witness:
  "conditional example_joint ''c'' ''g'' = Inl UnboundLocalError \<and>
   marginal example_joint ''c'' = Inr None \<and>
   conditional example_joint ''b'' ''g'' = Inl KeyError \<and>
   conditional example_joint ''a'' ''x'' = Inl KeyError \<and>
   conditional empty_row_joint ''a'' ''g'' = Inr [(''x'', NaN), (''y'', NaN)] \<and>
   conditional zero_counts ''b'' ''y'' = Inr [(''g'', NaN), (''r'', NaN)]"
proof -
  have neither: "''c'' \<noteq> columns_name example_joint \<and> ''c'' \<noteq> index_name example_joint"
    and no_column: "''b'' = columns_name example_joint \<and> ''g'' \<notin> set (columns example_joint)"
    and no_row: "''a'' \<noteq> columns_name example_joint \<and> ''a'' = index_name example_joint \<and>
      ''x'' \<notin> set (index example_joint)"
    by (simp_all add: example_joint_def)
  have row: "wf_frame empty_row_joint \<and> ''a'' \<noteq> columns_name empty_row_joint \<and>
      ''a'' = index_name empty_row_joint"
    "0 < length (index empty_row_joint)" "sum_list (cells empty_row_joint ! 0) = 0"
    by (simp_all add: wf_frame_def empty_row_joint_def)
  have col: "wf_frame zero_counts \<and> ''b'' = columns_name zero_counts"
    "1 < length (columns zero_counts)" "sum_list (column zero_counts 1) = 0"
    by (simp_all add: wf_frame_def zero_counts_def column_def)
  have "conditional example_joint ''c'' ''g'' = Inl UnboundLocalError"
    "marginal example_joint ''c'' = Inr None"
    using extractor_failures [of "''c''" example_joint "''g''"] neither by blast+
  moreover have "conditional example_joint ''b'' ''g'' = Inl KeyError"
    using extractor_failures [of "''b''" example_joint "''g''"] no_column by blast
  moreover have "conditional example_joint ''a'' ''x'' = Inl KeyError"
    using extractor_failures [of "''a''" example_joint "''x''"] no_row by blast
  moreover have "conditional empty_row_joint ''a'' (index empty_row_joint ! 0) =
      Inr (zip (columns empty_row_joint) (map (\<lambda>x. fdiv x 0) (cells empty_row_joint ! 0)))"
    using extractor_failures [of "''a''" empty_row_joint] row by blast
  moreover have "conditional zero_counts ''b'' (columns zero_counts ! 1) =
      Inr (zip (index zero_counts) (map (\<lambda>x. fdiv x 0) (column zero_counts 1)))"
    using extractor_failures [of "''b''" zero_counts] col by blast
  ultimately show ?thesis
    by (simp add: empty_row_joint_def zero_counts_def column_def fdiv_def)
qed

text \<open>
  A slice that sums to zero and an axis name that \<open>marginal\<close> does not know are both
  answered with a value, not with an error.
\<close>

theorem extractor_failures_counterexample:
  "wf_frame empty_row_joint \<and> sum_list (cells empty_row_joint ! 0) = 0 \<and>
   conditional empty_row_joint (index_name empty_row_joint) (index empty_row_joint ! 0) =
     Inr [(''x'', NaN), (''y'', NaN)] \<and>
   ''c'' \<noteq> index_name empty_row_joint \<and> ''c'' \<noteq> columns_name empty_row_joint \<and>
   marginal empty_row_joint ''c'' = Inr None"
  by (simp add: wf_frame_def empty_row_joint_def conditional_def loc_def
      series_div_def series_sum_def fdiv_def marginal_def)

text \<open>
  C10: for every joint table whose row axis and column axis carry the same name,
  \<open>conditional\<close> called with that name selects the column at the given label and never
  the row (a label that is not a column label is a \<^verbatim>\<open>KeyError\<close>), and \<open>marginal\<close>
  called with that name returns the sums of the columns.
\<close>

theorem same_name_selects_column:
  fixes jt :: "('l, rat) frame"
  assumes "wf_frame jt" and "index_name jt = columns_name jt"
  shows "(\<forall>k<length (columns jt).
            conditional jt (columns_name jt) (columns jt ! k) =
              Inr (zip (index jt) (map (\<lambda>x. fdiv x (sum_list (column jt k))) (column jt k)))) \<and>
         (\<forall>val. val \<notin> set (columns jt) \<longrightarrow> conditional jt (columns_name jt) val = Inl KeyError) \<and>
         marginal jt (columns_name jt) =
           Inr (Some (zip (columns jt) (map (\<lambda>k. sum_list (column jt k)) [0..<length (columns jt)])))"
  using assms
  by (simp add: conditional_column conditional_unknown_label(1) marginal_def sum_axis0_def)

theorem same_name_selects_column_witness:
  "wf_frame same_name_joint \<and> index_name same_name_joint = columns_name same_name_joint \<and>
   conditional same_name_joint ''v'' ''p'' = Inr [(''p'', Fin 1), (''q'', Fin 0)] \<and>
   marginal same_name_joint ''v'' = Inr (Some [(''p'', 1 / 2), (''q'', 1 / 2)])"
proof -
  have wf: "wf_frame same_name_joint"
    by (simp add: wf_frame_def same_name_joint_def)
  have same: "index_name same_name_joint = columns_name same_name_joint"
    by (simp add: same_name_joint_def)
  have upt: "[0..<2] = [0, Suc 0]"
    by (simp add: upt_rec)
  have k: "0 < length (columns same_name_joint)"
    by (simp add: same_name_joint_def)
  from same_name_selects_column [OF wf same] k
  have "conditional same_name_joint (columns_name same_name_joint) (columns same_name_joint ! 0) =
          Inr (zip (index same_name_joint)
            (map (\<lambda>x. fdiv x (sum_list (column same_name_joint 0))) (column same_name_joint 0)))"
    and "marginal same_name_joint (columns_name same_name_joint) =
          Inr (Some (zip (columns same_name_joint)
            (map (\<lambda>k. sum_list (column same_name_joint k)) [0..<length (columns same_name_joint)])))"
    by blast+
  then show ?thesis
    using wf same by (simp add: same_name_joint_def column_def fdiv_def upt)
qed


text \<open>
  C9: the law of total probability. For every joint PMF with two different axis names
  \<open>cond\<close> and \<open>other\<close>, every slice along the \<open>cond\<close> axis (every row when \<open>cond\<close> names
  the rows, every column when it names the columns) having a nonzero sum, and every label
  \<open>x\<close> of \<^verbatim>\<open>marginal(joint, other)\<close> with entry \<open>t\<close>: the sum over the entries \<open>(v, p)\<close> of
  \<^verbatim>\<open>marginal(joint, cond)\<close> of \<open>p\<close> times \<^verbatim>\<open>conditional(joint, cond, v)[x]\<close> is defined and
  equals \<open>t\<close>. The table need not be normalized for this.
\<close>

theorem law_of_total_probability:
  fixes jt :: "('l, rat) frame"
  assumes wf: "wf_frame jt" and names: "index_name jt \<noteq> columns_name jt"
    and axes: "cond = index_name jt \<and> other = columns_name jt \<and>
                 list_all (\<lambda>r. sum_list r \<noteq> 0) (cells jt) \<or>
               cond = columns_name jt \<and> other = index_name jt \<and>
                 list_all (\<lambda>k. sum_list (column jt k) \<noteq> 0) [0..<length (columns jt)]"
    and mo: "marginal jt other = Inr (Some mo)" and x: "map_of mo x = Some t"
  shows "total_probability jt cond x = Some t"
  using axes
proof (elim disjE conjE)
  assume cond: "cond = index_name jt" and other: "other = columns_name jt"
    and "list_all (\<lambda>r. sum_list r \<noteq> 0) (cells jt)"
  then have nz: "\<forall>i<length (index jt). sum_list (cells jt ! i) \<noteq> 0"
    using wf by (simp add: list_all_length wf_frame_def)
  have "mo = zip (columns jt) (map (\<lambda>k. sum_list (column jt k)) [0..<length (columns jt)])"
    using mo unfolding other by (simp add: marginal_def sum_axis0_def)
  with x have "map_of (zip (columns jt)
      (map (\<lambda>k. sum_list (column jt k)) [0..<length (columns jt)])) x = Some t"
    by simp
  from map_of_zip_SomeD [OF this]
  obtain k where k: "k < length (columns jt)" "columns jt ! k = x" "sum_list (column jt k) = t"
    by auto
  from total_probability_rows [OF wf names [symmetric] refl nz k(1)]
  show ?thesis
    unfolding cond k(2,3) .
next
  assume cond: "cond = columns_name jt" and other: "other = index_name jt"
    and "list_all (\<lambda>k. sum_list (column jt k) \<noteq> 0) [0..<length (columns jt)]"
  then have nz: "\<forall>k<length (columns jt). sum_list (column jt k) \<noteq> 0"
    by (simp add: list_all_iff)
  have "mo = zip (index jt) (map sum_list (cells jt))"
    using mo names [symmetric] unfolding other by (simp add: marginal_def sum_axis1_def)
  with x have "map_of (zip (index jt) (map sum_list (cells jt))) x = Some t"
    by simp
  from map_of_zip_SomeD [OF this] wf
  obtain i where i: "i < length (index jt)" "index jt ! i = x" "sum_list (cells jt ! i) = t"
    by (auto simp: wf_frame_def)
  from total_probability_columns [OF wf refl nz i(1)]
  show ?thesis
    unfolding cond i(2,3) .
qed

theorem law_of_total_probability_witness:
  "wf_frame example_joint \<and> index_name example_joint \<noteq> columns_name example_joint \<and>
   list_all (\<lambda>r. sum_list r \<noteq> 0) (cells example_joint) \<and>
   list_all (\<lambda>k. sum_list (column example_joint k) \<noteq> 0) [0..<length (columns example_joint)] \<and>
   marginal example_joint ''b'' = Inr (Some [(''x'', 2 / 3), (''y'', 1 / 3)]) \<and>
   total_probability example_joint ''a'' ''x'' = Some (2 / 3) \<and>
   marginal example_joint ''a'' = Inr (Some [(''g'', 1 / 3), (''r'', 2 / 3)]) \<and>
   total_probability example_joint ''b'' ''r'' = Some (2 / 3)"
proof -
  have upt: "[0..<2] = [0, Suc 0]"
    by (simp add: upt_rec)
  have wf: "wf_frame example_joint"
    by (simp add: wf_frame_def example_joint_def)
  have names: "index_name example_joint \<noteq> columns_name example_joint"
    by (simp add: example_joint_def)
  have rows: "list_all (\<lambda>r. sum_list r \<noteq> 0) (cells example_joint)"
    by (simp add: example_joint_def)
  have cols: "list_all (\<lambda>k. sum_list (column example_joint k) \<noteq> 0)
      [0..<length (columns example_joint)]"
    by (simp add: example_joint_def column_def upt)
  have by_rows: "''a'' = index_name example_joint \<and> ''b'' = columns_name example_joint \<and>
        list_all (\<lambda>r. sum_list r \<noteq> 0) (cells example_joint) \<or>
      ''a'' = columns_name example_joint \<and> ''b'' = index_name example_joint \<and>
        list_all (\<lambda>k. sum_list (column example_joint k) \<noteq> 0)
          [0..<length (columns example_joint)]"
    using rows by (simp add: example_joint_def)
  have by_cols: "''b'' = index_name example_joint \<and> ''a'' = columns_name example_joint \<and>
        list_all (\<lambda>r. sum_list r \<noteq> 0) (cells example_joint) \<or>
      ''b'' = columns_name example_joint \<and> ''a'' = index_name example_joint \<and>
        list_all (\<lambda>k. sum_list (column example_joint k) \<noteq> 0)
          [0..<length (columns example_joint)]"
    using cols by (simp add: example_joint_def)
  have mb: "marginal example_joint ''b'' = Inr (Some [(''x'', 2 / 3), (''y'', 1 / 3)])"
    by (simp add: marginal_def sum_axis0_def column_def example_joint_def upt)
  have ma: "marginal example_joint ''a'' = Inr (Some [(''g'', 1 / 3), (''r'', 2 / 3)])"
    by (simp add: marginal_def sum_axis1_def example_joint_def)
  have x: "map_of [(''x'', 2 / 3), (''y'', 1 / 3 :: rat)] ''x'' = Some (2 / 3)"
    by simp
  have r: "map_of [(''g'', 1 / 3), (''r'', 2 / 3 :: rat)] ''r'' = Some (2 / 3)"
    by simp
  from law_of_total_probability [OF wf names by_rows mb x]
    law_of_total_probability [OF wf names by_cols ma r]
    wf names rows cols mb ma
  show ?thesis
    by blast
qed

end
